theory Spec2Isabelle
  imports Main "HOL-Library.Word"
begin

section \<open>Hardware interface\<close>

text \<open>
  The sketch runs on an Arduino Nano (ATmega328): \<open>byte\<close> is an unsigned 8-bit value,
  \<open>int\<close> is a signed 16-bit value and the argument of \<open>delay\<close> is an unsigned 32-bit
  number of milliseconds.
\<close>

type_synonym byte = "8 word"

text \<open>The pin numbers of the \<open>#define\<close> lines.\<close>

definition Sw_A0 :: nat where "Sw_A0 = 3"
definition Sw_A1 :: nat where "Sw_A1 = 4"
definition Sw_A2 :: nat where "Sw_A2 = 5"
definition Sw_A3 :: nat where "Sw_A3 = 6"
definition Sw_B0 :: nat where "Sw_B0 = 7"
definition Sw_B1 :: nat where "Sw_B1 = 8"
definition Sw_B2 :: nat where "Sw_B2 = 9"
definition Sw_B3 :: nat where "Sw_B3 = 10"
definition LED :: nat where "LED = 13"
definition Lamp :: nat where "Lamp = 2"

text \<open>
  What the sketch does to the outside world, in the order it does it:
  \<open>digitalWrite(pin, level)\<close> with \<open>True\<close> for \<open>HIGH\<close>, and \<open>delay(ms)\<close>.
  A function with effects returns the list of its events.
\<close>

datatype event = DigitalWrite nat bool | Delay "32 word"

section \<open>The flash patterns\<close>

text \<open>
  The global arrays \<open>Code01\<close> .. \<open>CodeFF\<close>, in units of 0.1 s, alternately on and off.
  The arrays commented out in the source (27, 6C, 6D, 8C, 9C, AC, BC, CC, CF, DC, DF,
  E6, EC, EF, F6, FC) do not exist.
\<close>

definition Code01 :: "byte list" where
  "Code01 = [8, 32]"

definition Code02 :: "byte list" where
  "Code02 = [10, 140]"

definition Code03 :: "byte list" where
  "Code03 = [30, 20]"

definition Code04 :: "byte list" where
  "Code04 = [5, 10]"

definition Code05 :: "byte list" where
  "Code05 = [5, 11]"

definition Code06 :: "byte list" where
  "Code06 = [2, 98]"

definition Code07 :: "byte list" where
  "Code07 = [5, 10, 5, 30]"

definition Code08 :: "byte list" where
  "Code08 = [5, 15, 5, 15, 5, 105]"

definition Code09 :: "byte list" where
  "Code09 = [7, 5, 7, 5, 19, 107]"

definition Code0A :: "byte list" where
  "Code0A = [5, 10, 5, 20]"

definition Code0B :: "byte list" where
  "Code0B = [3, 10, 3, 10, 3, 61]"

definition Code0C :: "byte list" where
  "Code0C = [3, 2, 3, 2, 3, 37]"

definition Code0D :: "byte list" where
  "Code0D = [5, 15, 5, 15, 5, 45, 5, 105]"

definition Code0E :: "byte list" where
  "Code0E = [3, 7, 3, 7, 3, 7, 3, 7, 3, 7, 3, 7, 3, 7, 3, 7, 3, 67]"

definition Code0F :: "byte list" where
  "Code0F = [5, 5, 5, 5, 5, 5, 5, 165]"

definition Code10 :: "byte list" where
  "Code10 = [3, 12]"

definition Code11 :: "byte list" where
  "Code11 = [10, 30]"

definition Code12 :: "byte list" where
  "Code12 = [10, 10]"

definition Code13 :: "byte list" where
  "Code13 = [40, 10]"

definition Code14 :: "byte list" where
  "Code14 = [15, 85]"

definition Code15 :: "byte list" where
  "Code15 = [2, 28]"

definition Code16 :: "byte list" where
  "Code16 = [3, 97]"

definition Code17 :: "byte list" where
  "Code17 = [10, 10, 10, 20]"

definition Code18 :: "byte list" where
  "Code18 = [10, 10, 10, 40, 101]"

definition Code19 :: "byte list" where
  "Code19 = [7, 7, 7, 7, 21, 101]"

definition Code1A :: "byte list" where
  "Code1A = [3, 10, 3, 29]"

definition Code1B :: "byte list" where
  "Code1B = [5, 15, 5, 15, 5, 75]"

definition Code1C :: "byte list" where
  "Code1C = [1, 5, 1, 5, 1, 137]"

definition Code1D :: "byte list" where
  "Code1D = [5, 10, 5, 10, 50, 10, 5, 50]"

definition Code1E :: "byte list" where
  "Code1E = [6, 6, 6, 6, 6, 6, 6, 6, 6, 6, 6, 6, 6, 6, 6, 6, 6, 48]"

definition Code1F :: "byte list" where
  "Code1F = [2, 8, 2, 8, 2, 8, 2, 8, 2, 8, 2, 8, 2, 8, 2, 8, 2, 68]"

definition Code20 :: "byte list" where
  "Code20 = [2, 18]"

definition Code21 :: "byte list" where
  "Code21 = [15, 25]"

definition Code22 :: "byte list" where
  "Code22 = [15, 15]"

definition Code23 :: "byte list" where
  "Code23 = [45, 5]"

definition Code24 :: "byte list" where
  "Code24 = [40, 60]"

definition Code25 :: "byte list" where
  "Code25 = [4, 26]"

definition Code26 :: "byte list" where
  "Code26 = [8, 92]"

definition Code28 :: "byte list" where
  "Code28 = [8, 12, 8, 32]"

definition Code29 :: "byte list" where
  "Code29 = [5, 5, 5, 35]"

definition Code2A :: "byte list" where
  "Code2A = [4, 10, 4, 27]"

definition Code2B :: "byte list" where
  "Code2B = [3, 4, 3, 12, 3, 35]"

definition Code2C :: "byte list" where
  "Code2C = [2, 12, 2, 34]"

definition Code2D :: "byte list" where
  "Code2D = [8, 12, 8, 12, 8, 12, 8, 32]"

definition Code2E :: "byte list" where
  "Code2E = [3, 7, 3, 7, 3, 7, 3, 7, 3, 7, 3, 7, 20, 70]"

definition Code2F :: "byte list" where
  "Code2F = [2, 8, 2, 8, 2, 8, 2, 8, 2, 8, 2, 8, 20, 70]"

definition Code30 :: "byte list" where
  "Code30 = [3, 17]"

definition Code31 :: "byte list" where
  "Code31 = [13, 30]"

definition Code32 :: "byte list" where
  "Code32 = [20, 20]"

definition Code33 :: "byte list" where
  "Code33 = [45, 15]"

definition Code34 :: "byte list" where
  "Code34 = [20, 100]"

definition Code35 :: "byte list" where
  "Code35 = [20, 10]"

definition Code36 :: "byte list" where
  "Code36 = [25, 15]"

definition Code37 :: "byte list" where
  "Code37 = [10, 10, 10, 30]"

definition Code38 :: "byte list" where
  "Code38 = [5, 7, 5, 21, 5, 57]"

definition Code39 :: "byte list" where
  "Code39 = [3, 7, 3, 7, 3, 47]"

definition Code3A :: "byte list" where
  "Code3A = [5, 10, 5, 25]"

definition Code3B :: "byte list" where
  "Code3B = [5, 15, 5, 15, 5, 155]"

definition Code3C :: "byte list" where
  "Code3C = [5, 10, 5, 10, 25]"

definition Code3D :: "byte list" where
  "Code3D = [8, 12, 8, 12, 8, 12, 8, 52]"

definition Code3E :: "byte list" where
  "Code3E = [6, 6, 6, 6, 6, 6, 6, 6, 6, 6, 6, 6, 20, 58]"

definition Code3F :: "byte list" where
  "Code3F = [15, 15, 15, 15, 15, 15, 15, 95]"

definition Code40 :: "byte list" where
  "Code40 = [4, 16]"

definition Code41 :: "byte list" where
  "Code41 = [3, 47]"

definition Code42 :: "byte list" where
  "Code42 = [25, 25]"

definition Code43 :: "byte list" where
  "Code43 = [50, 10]"

definition Code44 :: "byte list" where
  "Code44 = [40, 110]"

definition Code45 :: "byte list" where
  "Code45 = [2, 38]"

definition Code46 :: "byte list" where
  "Code46 = [25, 20]"

definition Code47 :: "byte list" where
  "Code47 = [5, 10, 5, 60]"

definition Code48 :: "byte list" where
  "Code48 = [8, 12, 8, 24, 8, 60]"

definition Code49 :: "byte list" where
  "Code49 = [6, 4, 6, 84]"

definition Code4A :: "byte list" where
  "Code4A = [4, 6, 4, 36]"

definition Code4B :: "byte list" where
  "Code4B = [5, 30, 5, 30, 125]"

definition Code4C :: "byte list" where
  "Code4C = [30, 20, 10, 20]"

definition Code4D :: "byte list" where
  "Code4D = [5, 15, 5, 15, 5, 15, 5, 85]"

definition Code4E :: "byte list" where
  "Code4E = [2, 3, 2, 3, 2, 3, 2, 3, 2, 3, 2, 3, 2, 3, 2, 3, 2, 58]"

definition Code4F :: "byte list" where
  "Code4F = [5, 5, 5, 5, 5, 5, 5, 85]"

definition Code50 :: "byte list" where
  "Code50 = [5, 15]"

definition Code51 :: "byte list" where
  "Code51 = [5, 45]"

definition Code52 :: "byte list" where
  "Code52 = [30, 30]"

definition Code53 :: "byte list" where
  "Code53 = [70, 30]"

definition Code54 :: "byte list" where
  "Code54 = [20, 10]"

definition Code55 :: "byte list" where
  "Code55 = [3, 37]"

definition Code56 :: "byte list" where
  "Code56 = [45, 25]"

definition Code57 :: "byte list" where
  "Code57 = [10, 10, 10, 50]"

definition Code58 :: "byte list" where
  "Code58 = [10, 10, 10, 40, 10, 40]"

definition Code59 :: "byte list" where
  "Code59 = [2, 3, 2, 3, 2, 38]"

definition Code5A :: "byte list" where
  "Code5A = [4, 14, 4, 33]"

definition Code5B :: "byte list" where
  "Code5B = [8, 12, 8, 12, 8, 152]"

definition Code5C :: "byte list" where
  "Code5C = [50, 10, 10, 10]"

definition Code5D :: "byte list" where
  "Code5D = [5, 15, 5, 15, 5, 15, 5, 135]"

definition Code5E :: "byte list" where
  "Code5E = [3, 3, 3, 3, 3, 3, 3, 3, 3, 3, 3, 3, 3, 3, 3, 3, 3, 49]"

definition Code5F :: "byte list" where
  "Code5F = [5, 5, 5, 5, 5, 5, 5, 5, 5, 155]"

definition Code60 :: "byte list" where
  "Code60 = [2, 13]"

definition Code61 :: "byte list" where
  "Code61 = [10, 40]"

definition Code62 :: "byte list" where
  "Code62 = [40, 40]"

definition Code63 :: "byte list" where
  "Code63 = [75, 25]"

definition Code64 :: "byte list" where
  "Code64 = [40, 20]"

definition Code65 :: "byte list" where
  "Code65 = [6, 34]"

definition Code66 :: "byte list" where
  "Code66 = [50, 30]"

definition Code67 :: "byte list" where
  "Code67 = [5, 10, 5, 8]"

definition Code68 :: "byte list" where
  "Code68 = [10, 20, 10, 50, 10, 50]"

definition Code69 :: "byte list" where
  "Code69 = [5, 20, 5, 70]"

definition Code6A :: "byte list" where
  "Code6A = [3, 10, 3, 44]"

definition Code6B :: "byte list" where
  "Code6B = [10, 10, 10, 10, 10, 150]"

definition Code6E :: "byte list" where
  "Code6E = [2, 3, 2, 3, 2, 3, 2, 3, 2, 3, 2, 3, 20, 50]"

definition Code6F :: "byte list" where
  "Code6F = [5, 5, 5, 5, 5, 5, 5, 255, 0, 10]"

definition Code70 :: "byte list" where
  "Code70 = [3, 12]"

definition Code71 :: "byte list" where
  "Code71 = [15, 35]"

definition Code72 :: "byte list" where
  "Code72 = [50, 50]"

definition Code73 :: "byte list" where
  "Code73 = [2, 8]"

definition Code74 :: "byte list" where
  "Code74 = [100, 50]"

definition Code75 :: "byte list" where
  "Code75 = [12, 48]"

definition Code76 :: "byte list" where
  "Code76 = [60, 30]"

definition Code77 :: "byte list" where
  "Code77 = [5, 15, 5, 75]"

definition Code78 :: "byte list" where
  "Code78 = [3, 6, 10, 41]"

definition Code79 :: "byte list" where
  "Code79 = [5, 5, 5, 5, 5, 25]"

definition Code7A :: "byte list" where
  "Code7A = [4, 10, 4, 42]"

definition Code7B :: "byte list" where
  "Code7B = [4, 6, 20, 50]"

definition Code7C :: "byte list" where
  "Code7C = [4, 6, 20, 50]"

definition Code7D :: "byte list" where
  "Code7D = [15, 5, 5, 5, 5, 5, 5, 105]"

definition Code7E :: "byte list" where
  "Code7E = [3, 3, 3, 3, 3, 3, 3, 3, 3, 3, 3, 3, 20, 44]"

definition Code7F :: "byte list" where
  "Code7F = [5, 10, 5, 10, 5, 10, 5, 10, 50, 10, 5, 70]"

definition Code80 :: "byte list" where
  "Code80 = [3, 22]"

definition Code81 :: "byte list" where
  "Code81 = [5, 5]"

definition Code82 :: "byte list" where
  "Code82 = [20, 30]"

definition Code83 :: "byte list" where
  "Code83 = [3, 7]"

definition Code84 :: "byte list" where
  "Code84 = [8, 2]"

definition Code85 :: "byte list" where
  "Code85 = [2, 48]"

definition Code86 :: "byte list" where
  "Code86 = [60, 40]"

definition Code87 :: "byte list" where
  "Code87 = [8, 12, 8, 72]"

definition Code88 :: "byte list" where
  "Code88 = [8, 12, 24, 36]"

definition Code89 :: "byte list" where
  "Code89 = [50, 10, 10, 10, 10, 10]"

definition Code8A :: "byte list" where
  "Code8A = [4, 10, 4, 62]"

definition Code8B :: "byte list" where
  "Code8B = [2, 8, 2, 138]"

definition Code8D :: "byte list" where
  "Code8D = [4, 6, 4, 6, 4, 6, 4, 26]"

definition Code8E :: "byte list" where
  "Code8E = [10, 10, 10, 10, 10, 10, 80]"

definition Code8F :: "byte list" where
  "Code8F = [3, 3, 3, 3, 3, 3, 3, 3, 3, 3, 3, 3, 20, 94]"

definition Code90 :: "byte list" where
  "Code90 = [5, 20]"

definition Code91 :: "byte list" where
  "Code91 = [6, 54]"

definition Code92 :: "byte list" where
  "Code92 = [20, 40]"

definition Code93 :: "byte list" where
  "Code93 = [4, 6]"

definition Code94 :: "byte list" where
  "Code94 = [5, 7]"

definition Code95 :: "byte list" where
  "Code95 = [9, 41]"

definition Code96 :: "byte list" where
  "Code96 = [20, 50]"

definition Code97 :: "byte list" where
  "Code97 = [10, 15, 10, 65]"

definition Code98 :: "byte list" where
  "Code98 = [5, 5, 15, 75]"

definition Code99 :: "byte list" where
  "Code99 = [5, 10, 4, 40]"

definition Code9A :: "byte list" where
  "Code9A = [4, 16, 4, 76]"

definition Code9B :: "byte list" where
  "Code9B = [3, 7, 3, 37]"

definition Code9D :: "byte list" where
  "Code9D = [4, 10, 4, 10, 118]"

definition Code9E :: "byte list" where
  "Code9E = [10, 10, 10, 10, 10, 10, 10, 10, 10, 111]"

definition Code9F :: "byte list" where
  "Code9F = [8, 12, 8, 12, 8, 12, 8, 12, 8, 112]"

definition CodeA0 :: "byte list" where
  "CodeA0 = [3, 27]"

definition CodeA1 :: "byte list" where
  "CodeA1 = [10, 50]"

definition CodeA2 :: "byte list" where
  "CodeA2 = [20, 60]"

definition CodeA3 :: "byte list" where
  "CodeA3 = [5, 5]"

definition CodeA4 :: "byte list" where
  "CodeA4 = [10, 60]"

definition CodeA5 :: "byte list" where
  "CodeA5 = [20, 180]"

definition CodeA6 :: "byte list" where
  "CodeA6 = [10, 20, 10, 110]"

definition CodeA7 :: "byte list" where
  "CodeA7 = [5, 15, 20, 110]"

definition CodeA8 :: "byte list" where
  "CodeA8 = [5, 15, 20, 110]"

definition CodeA9 :: "byte list" where
  "CodeA9 = [10, 10, 10, 40]"

definition CodeAA :: "byte list" where
  "CodeAA = [3, 9, 3, 45]"

definition CodeAB :: "byte list" where
  "CodeAB = [3, 7, 3, 7, 3, 37]"

definition CodeAD :: "byte list" where
  "CodeAD = [3, 7, 3, 7, 3, 7, 3, 87]"

definition CodeAE :: "byte list" where
  "CodeAE = [5, 10, 5, 10, 5, 10, 5, 10, 5, 10, 5, 70]"

definition CodeAF :: "byte list" where
  "CodeAF = [3, 7, 3, 7, 3, 7, 3, 7, 3, 7, 3, 97]"

definition CodeB0 :: "byte list" where
  "CodeB0 = [15, 15]"

definition CodeB1 :: "byte list" where
  "CodeB1 = [15, 45]"

definition CodeB2 :: "byte list" where
  "CodeB2 = [30, 50]"

definition CodeB3 :: "byte list" where
  "CodeB3 = [3, 9]"

definition CodeB4 :: "byte list" where
  "CodeB4 = [10, 70]"

definition CodeB5 :: "byte list" where
  "CodeB5 = [3, 57]"

definition CodeB6 :: "byte list" where
  "CodeB6 = [10, 10, 10, 30, 10, 50]"

definition CodeB7 :: "byte list" where
  "CodeB7 = [8, 12, 8, 12, 8, 42]"

definition CodeB8 :: "byte list" where
  "CodeB8 = [3, 7, 3, 7, 9, 71]"

definition CodeB9 :: "byte list" where
  "CodeB9 = [10, 10, 10, 70]"

definition CodeBA :: "byte list" where
  "CodeBA = [4, 10, 4, 102]"

definition CodeBB :: "byte list" where
  "CodeBB = [3, 7, 3, 7, 3, 77]"

definition CodeBD :: "byte list" where
  "CodeBD = [3, 7, 3, 7, 3, 7, 3, 27]"

definition CodeBE :: "byte list" where
  "CodeBE = [3, 17, 3, 17, 3, 17, 3, 57]"

definition CodeBF :: "byte list" where
  "CodeBF = [3, 3, 3, 3, 3, 3, 3, 23]"

definition CodeC0 :: "byte list" where
  "CodeC0 = [7, 23]"

definition CodeC1 :: "byte list" where
  "CodeC1 = [8, 67]"

definition CodeC2 :: "byte list" where
  "CodeC2 = [20, 80]"

definition CodeC3 :: "byte list" where
  "CodeC3 = [6, 6]"

definition CodeC4 :: "byte list" where
  "CodeC4 = [10, 80]"

definition CodeC5 :: "byte list" where
  "CodeC5 = [4, 56]"

definition CodeC6 :: "byte list" where
  "CodeC6 = [2, 58]"

definition CodeC7 :: "byte list" where
  "CodeC7 = [5, 15, 5, 15, 5, 55]"

definition CodeC8 :: "byte list" where
  "CodeC8 = [4, 6, 4, 6, 12, 68]"

definition CodeC9 :: "byte list" where
  "CodeC9 = [5, 10, 5, 100]"

definition CodeCA :: "byte list" where
  "CodeCA = [10, 30, 10, 150]"

definition CodeCB :: "byte list" where
  "CodeCB = [5, 5, 5, 5, 5, 75]"

definition CodeCD :: "byte list" where
  "CodeCD = [3, 30, 3, 30, 3, 30, 3, 98]"

definition CodeCE :: "byte list" where
  "CodeCE = [5, 15, 5, 15, 5, 15, 5, 55]"

definition CodeD0 :: "byte list" where
  "CodeD0 = [10, 20]"

definition CodeD1 :: "byte list" where
  "CodeD1 = [5, 95]"

definition CodeD2 :: "byte list" where
  "CodeD2 = [30, 70]"

definition CodeD3 :: "byte list" where
  "CodeD3 = [2, 3]"

definition CodeD4 :: "byte list" where
  "CodeD4 = [25, 95]"

definition CodeD5 :: "byte list" where
  "CodeD5 = [5, 70]"

definition CodeD6 :: "byte list" where
  "CodeD6 = [10, 15]"

definition CodeD7 :: "byte list" where
  "CodeD7 = [10, 10, 10, 10, 10, 50]"

definition CodeD8 :: "byte list" where
  "CodeD8 = [5, 5, 5, 5, 15, 65]"

definition CodeD9 :: "byte list" where
  "CodeD9 = [15, 20, 15, 70]"

definition CodeDA :: "byte list" where
  "CodeDA = [10, 10, 10, 220]"

definition CodeDB :: "byte list" where
  "CodeDB = [6, 6, 6, 6, 6, 70]"

definition CodeDD :: "byte list" where
  "CodeDD = [3, 7, 3, 7, 3, 7, 3, 7, 3, 27]"

definition CodeDE :: "byte list" where
  "CodeDE = [5, 15, 5, 15, 5, 15, 5, 95]"

definition CodeE0 :: "byte list" where
  "CodeE0 = [4, 36]"

definition CodeE1 :: "byte list" where
  "CodeE1 = [10, 90]"

definition CodeE2 :: "byte list" where
  "CodeE2 = [25, 5]"

definition CodeE3 :: "byte list" where
  "CodeE3 = [2, 4]"

definition CodeE4 :: "byte list" where
  "CodeE4 = [10, 250]"

definition CodeE5 :: "byte list" where
  "CodeE5 = [5, 75]"

definition CodeE7 :: "byte list" where
  "CodeE7 = [8, 12, 8, 12, 8, 72]"

definition CodeE8 :: "byte list" where
  "CodeE8 = [5, 15, 5, 15, 5, 15, 5, 15, 5, 35]"

definition CodeE9 :: "byte list" where
  "CodeE9 = [3, 3, 3, 3, 3, 35]"

definition CodeEA :: "byte list" where
  "CodeEA = [5, 20, 5, 20, 5, 65]"

definition CodeEB :: "byte list" where
  "CodeEB = [2, 10, 2, 26]"

definition CodeED :: "byte list" where
  "CodeED = [3, 7, 3, 7, 3, 7, 3, 7, 3, 57]"

definition CodeEE :: "byte list" where
  "CodeEE = [5, 5, 5, 5, 5, 5, 5, 245]"

definition CodeF0 :: "byte list" where
  "CodeF0 = [5, 35]"

definition CodeF1 :: "byte list" where
  "CodeF1 = [12, 108]"

definition CodeF2 :: "byte list" where
  "CodeF2 = [30, 10]"

definition CodeF3 :: "byte list" where
  "CodeF3 = [3, 3]"

definition CodeF4 :: "byte list" where
  "CodeF4 = [2, 13]"

definition CodeF5 :: "byte list" where
  "CodeF5 = [9, 81]"

definition CodeF7 :: "byte list" where
  "CodeF7 = [3, 17, 3, 17, 3, 107]"

definition CodeF8 :: "byte list" where
  "CodeF8 = [6, 3, 6, 3, 14, 118]"

definition CodeF9 :: "byte list" where
  "CodeF9 = [2, 8, 2, 38]"

definition CodeFA :: "byte list" where
  "CodeFA = [5, 10, 5, 10, 5, 45]"

definition CodeFB :: "byte list" where
  "CodeFB = [2, 10, 2, 66]"

definition CodeFD :: "byte list" where
  "CodeFD = [3, 7, 3, 7, 3, 7, 3, 7, 3, 7, 3, 47]"

definition CodeFE :: "byte list" where
  "CodeFE = [3, 7, 3, 7, 3, 7, 3, 67]"

definition CodeFF :: "byte list" where
  "CodeFF = [6, 3, 14, 3, 6, 3, 6, 10, 14, 3, 14, 3, 14, 10, 6, 3, 14, 3, 6, 3, 6, 70]"

section \<open>The player\<close>

text \<open>
  \<open>int millisecs = pattern[i] * 100\<close>: the byte is promoted to the 16-bit \<open>int\<close>
  and multiplied there.
\<close>

definition millisecs_of :: "byte \<Rightarrow> 16 word" where
  "millisecs_of tick = ucast tick * 100"

text \<open>
  The \<open>for\<close> loop of \<open>blinkLamp\<close>, from index \<open>i\<close> with the current \<open>lampState\<close>.
  The counter \<open>i\<close> is a byte, as \<open>pattern_length\<close> is. The array is a list; reading
  \<open>pattern[i]\<close> beyond its end is undefined behaviour in C, which the model reports
  as \<open>None\<close>. \<open>delay(millisecs)\<close> converts the \<open>int\<close> to \<open>unsigned long\<close>.
\<close>

function blinkLamp_loop :: "byte list \<Rightarrow> byte \<Rightarrow> byte \<Rightarrow> bool \<Rightarrow> event list option" where
  "blinkLamp_loop pattern pattern_length i lampState =
     (if i < pattern_length then
        (if unat i < length pattern then
           (if millisecs_of (pattern ! unat i) = 0 then
              blinkLamp_loop pattern pattern_length (i + 1) (\<not> lampState)
            else
              map_option
                (\<lambda>rest. [DigitalWrite Lamp (\<not> lampState),
                         DigitalWrite LED (\<not> lampState),
                         Delay (scast (millisecs_of (pattern ! unat i)))] @ rest)
                (blinkLamp_loop pattern pattern_length (i + 1) (\<not> lampState)))
         else None)
      else Some [])"
  by pat_completeness auto

termination
proof (relation "measure (\<lambda>(pattern, pattern_length, i, lampState). unat pattern_length - unat i)")
  show "wf (measure (\<lambda>(pattern, pattern_length, i, lampState). unat pattern_length - unat i))"
    by simp
next
  fix pattern :: "byte list" and pattern_length i :: byte and lampState :: bool
  assume "i < pattern_length"
  then have below: "unat i < unat pattern_length"
    by (simp add: word_less_nat_alt)
  moreover have "unat pattern_length < 256"
    using unsigned_less [of pattern_length] by simp
  ultimately have "unat i + unat (1 :: byte) < 2 ^ LENGTH(8)"
    by simp
  then have "unat (i + 1) = unat i + unat (1 :: byte)"
    by (simp only: unat_add_lem [THEN iffD1])
  with below
  have "((pattern, pattern_length, i + 1, \<not> lampState), (pattern, pattern_length, i, lampState))
      \<in> measure (\<lambda>(pattern, pattern_length, i, lampState). unat pattern_length - unat i)"
    by simp
  then show
    "((pattern, pattern_length, i + 1, \<not> lampState), (pattern, pattern_length, i, lampState))
      \<in> measure (\<lambda>(pattern, pattern_length, i, lampState). unat pattern_length - unat i)"
    "((pattern, pattern_length, i + 1, \<not> lampState), (pattern, pattern_length, i, lampState))
      \<in> measure (\<lambda>(pattern, pattern_length, i, lampState). unat pattern_length - unat i)"
    by assumption+
qed

declare blinkLamp_loop.simps [simp del]

text \<open>\<open>blinkLamp\<close>: \<open>lampState\<close> starts \<open>false\<close>, \<open>i\<close> starts at 0.\<close>

definition blinkLamp :: "byte list \<Rightarrow> byte \<Rightarrow> event list option" where
  "blinkLamp pattern pattern_length = blinkLamp_loop pattern pattern_length 0 False"

section \<open>Reading the switches\<close>

text \<open>
  \<open>readSwitches\<close>: the argument says which pins \<open>digitalRead\<close> finds \<open>HIGH\<close>.
\<close>

definition readSwitches :: "(nat \<Rightarrow> bool) \<Rightarrow> byte" where
  "readSwitches digitalRead =
     (let sum = 0;
          sum = (if digitalRead Sw_A0 then sum + 1 else sum);
          sum = (if digitalRead Sw_A1 then sum + 2 else sum);
          sum = (if digitalRead Sw_A2 then sum + 4 else sum);
          sum = (if digitalRead Sw_A3 then sum + 8 else sum);
          sum = (if digitalRead Sw_B0 then sum + 16 else sum);
          sum = (if digitalRead Sw_B1 then sum + 32 else sum);
          sum = (if digitalRead Sw_B2 then sum + 64 else sum);
          sum = (if digitalRead Sw_B3 then sum + 128 else sum)
      in sum)"

section \<open>The pattern selection\<close>

text \<open>
  The \<open>switch (setting)\<close> of \<open>loop\<close>. Its labels are \<open>case 0\<close>, the labels listed in
  \<open>rhythm_cases\<close>, each with the array its body passes to \<open>blinkLamp\<close>, and \<open>default\<close>,
  whose body passes \<open>CodeFF\<close>. Every body ends in \<open>break\<close>, so exactly one body runs.
\<close>

definition rhythm_cases :: "(byte \<times> byte list) list" where
  "rhythm_cases =
    [(1, Code01), (2, Code02), (3, Code03), (4, Code04), (5, Code05), (6, Code06),
     (7, Code07), (8, Code08), (9, Code09), (10, Code0A), (11, Code0B), (12, Code0C),
     (13, Code0D), (14, Code0E), (15, Code0F), (16, Code10), (17, Code11), (18, Code12),
     (19, Code13), (20, Code14), (21, Code15), (22, Code16), (23, Code17), (24, Code18),
     (25, Code19), (26, Code1A), (27, Code1B), (28, Code1C), (29, Code1D), (30, Code1E),
     (31, Code1F), (32, Code20), (33, Code21), (34, Code22), (35, Code23), (36, Code24),
     (37, Code25), (38, Code26), (40, Code28), (41, Code29), (42, Code2A), (43, Code2B),
     (44, Code2C), (45, Code2D), (46, Code2E), (47, Code2F), (48, Code30), (49, Code31),
     (50, Code32), (51, Code33), (52, Code34), (53, Code35), (54, Code36), (55, Code37),
     (56, Code38), (57, Code39), (58, Code3A), (59, Code3B), (60, Code3C), (61, Code3D),
     (62, Code3E), (63, Code3F), (64, Code40), (65, Code41), (66, Code42), (67, Code43),
     (68, Code44), (69, Code45), (70, Code46), (71, Code47), (72, Code48), (73, Code49),
     (74, Code4A), (75, Code4B), (76, Code4C), (77, Code4D), (78, Code4E), (79, Code4F),
     (80, Code50), (81, Code51), (82, Code52), (83, Code53), (84, Code54), (85, Code55),
     (86, Code56), (87, Code57), (88, Code58), (89, Code59), (90, Code5A), (91, Code5B),
     (92, Code5C), (93, Code5D), (94, Code5E), (95, Code5F), (96, Code60), (97, Code61),
     (98, Code62), (99, Code63), (100, Code64), (101, Code65), (102, Code66), (103, Code67),
     (104, Code68), (105, Code69), (106, Code6A), (107, Code6B), (110, Code6E), (111, Code6F),
     (112, Code70), (113, Code71), (114, Code72), (115, Code73), (116, Code74), (117, Code75),
     (118, Code76), (119, Code77), (120, Code78), (121, Code79), (122, Code7A), (123, Code7B),
     (124, Code7C), (125, Code7D), (126, Code7E), (127, Code7F), (128, Code80), (129, Code81),
     (130, Code82), (131, Code83), (132, Code84), (133, Code85), (134, Code86), (135, Code87),
     (136, Code88), (137, Code89), (138, Code8A), (139, Code8B), (141, Code8D), (142, Code8E),
     (143, Code8F), (144, Code90), (145, Code91), (146, Code92), (147, Code93), (148, Code94),
     (149, Code95), (150, Code96), (151, Code97), (152, Code98), (153, Code99), (154, Code9A),
     (155, Code9B), (157, Code9D), (158, Code9E), (159, Code9F), (160, CodeA0), (161, CodeA1),
     (162, CodeA2), (163, CodeA3), (164, CodeA4), (165, CodeA5), (166, CodeA6), (167, CodeA7),
     (168, CodeA8), (169, CodeA9), (170, CodeAA), (171, CodeAB), (173, CodeAD), (174, CodeAE),
     (175, CodeAF), (176, CodeB0), (177, CodeB1), (178, CodeB2), (179, CodeB3), (180, CodeB4),
     (181, CodeB5), (182, CodeB6), (183, CodeB7), (184, CodeB8), (185, CodeB9), (186, CodeBA),
     (187, CodeBB), (189, CodeBD), (190, CodeBE), (191, CodeBF), (192, CodeC0), (193, CodeC1),
     (194, CodeC2), (195, CodeC3), (196, CodeC4), (197, CodeC5), (198, CodeC6), (199, CodeC7),
     (200, CodeC8), (201, CodeC9), (202, CodeCA), (203, CodeCB), (205, CodeCD), (206, CodeCE),
     (208, CodeD0), (209, CodeD1), (210, CodeD2), (211, CodeD3), (212, CodeD4), (213, CodeD5),
     (214, CodeD6), (215, CodeD7), (216, CodeD8), (217, CodeD9), (218, CodeDA), (219, CodeDB),
     (221, CodeDD), (222, CodeDE), (224, CodeE0), (225, CodeE1), (226, CodeE2), (227, CodeE3),
     (228, CodeE4), (229, CodeE5), (231, CodeE7), (232, CodeE8), (233, CodeE9), (234, CodeEA),
     (235, CodeEB), (237, CodeED), (238, CodeEE), (240, CodeF0), (241, CodeF1), (242, CodeF2),
     (243, CodeF3), (244, CodeF4), (245, CodeF5), (247, CodeF7), (248, CodeF8), (249, CodeF9),
     (250, CodeFA), (251, CodeFB), (253, CodeFD), (254, CodeFE)]"

datatype selection = SteadyOn | Rhythm "byte list" | Fallback "byte list"

definition select :: "byte \<Rightarrow> selection" where
  "select setting =
     (if setting = 0 then SteadyOn
      else case map_of rhythm_cases setting of
             Some pattern \<Rightarrow> Rhythm pattern
           | None \<Rightarrow> Fallback CodeFF)"

text \<open>\<open>sizeof\<close> of a byte array is its number of entries; the parameter it is passed to is a byte.\<close>

definition sizeof :: "byte list \<Rightarrow> byte" where
  "sizeof pattern = of_nat (length pattern)"

text \<open>One run of \<open>loop\<close>.\<close>

definition loop :: "(nat \<Rightarrow> bool) \<Rightarrow> event list option" where
  "loop digitalRead =
     (let setting = readSwitches digitalRead in
      case select setting of
        SteadyOn \<Rightarrow> Some [DigitalWrite Lamp True, DigitalWrite LED True]
      | Rhythm pattern \<Rightarrow> blinkLamp pattern (sizeof pattern)
      | Fallback pattern \<Rightarrow> blinkLamp pattern (sizeof pattern))"


section \<open>What an observer of the lamp sees\<close>

text \<open>The levels written to the lamp pin, in order.\<close>

fun lampWrites :: "event list \<Rightarrow> bool list" where
  "lampWrites [] = []"
| "lampWrites (DigitalWrite pin level # es) =
     (if pin = Lamp then level # lampWrites es else lampWrites es)"
| "lampWrites (Delay ms # es) = lampWrites es"

text \<open>The delays requested, in order, in milliseconds, and their sum.\<close>

fun delays :: "event list \<Rightarrow> nat list" where
  "delays [] = []"
| "delays (DigitalWrite pin level # es) = delays es"
| "delays (Delay ms # es) = unat ms # delays es"

definition totalDelay :: "event list \<Rightarrow> nat" where
  "totalDelay es = sum_list (delays es)"

text \<open>The level of the lamp pin after the events, from the level it had before.\<close>

fun lampAfter :: "bool \<Rightarrow> event list \<Rightarrow> bool" where
  "lampAfter level [] = level"
| "lampAfter level (DigitalWrite pin level' # es) =
     lampAfter (if pin = Lamp then level' else level) es"
| "lampAfter level (Delay ms # es) = lampAfter level es"

text \<open>The number of writes to the lamp pin that change its level.\<close>

fun transitions :: "bool \<Rightarrow> event list \<Rightarrow> nat" where
  "transitions level [] = 0"
| "transitions level (DigitalWrite pin level' # es) =
     (if pin = Lamp then (if level' = level then 0 else 1) + transitions level' es
      else transitions level es)"
| "transitions level (Delay ms # es) = transitions level es"

text \<open>
  The lamp over time: for each delay the level the lamp pin holds during it, then
  neighbouring intervals of the same level joined into one visible segment.
\<close>

fun timeline :: "bool \<Rightarrow> event list \<Rightarrow> (bool \<times> nat) list" where
  "timeline level [] = []"
| "timeline level (DigitalWrite pin level' # es) =
     timeline (if pin = Lamp then level' else level) es"
| "timeline level (Delay ms # es) = (level, unat ms) # timeline level es"

fun join_runs :: "(bool \<times> nat) list \<Rightarrow> (bool \<times> nat) list" where
  "join_runs [] = []"
| "join_runs [r] = [r]"
| "join_runs ((a, m) # (b, n) # rs) =
     (if a = b then join_runs ((a, m + n) # rs) else (a, m) # join_runs ((b, n) # rs))"

definition segments :: "bool \<Rightarrow> event list \<Rightarrow> (bool \<times> nat) list" where
  "segments level es = join_runs (timeline level es)"

section \<open>The loop of the player as a recursion over the entries\<close>

text \<open>
  What one entry contributes when \<open>lampState\<close> holds before it, and the entries of a
  list played one after the other. \<open>blinkLamp\<close> is shown below to compute this.
\<close>

definition entry_events :: "bool \<Rightarrow> byte \<Rightarrow> event list" where
  "entry_events lampState tick =
     (if millisecs_of tick = 0 then []
      else [DigitalWrite Lamp (\<not> lampState), DigitalWrite LED (\<not> lampState),
            Delay (scast (millisecs_of tick))])"

fun entries_events :: "bool \<Rightarrow> byte list \<Rightarrow> event list" where
  "entries_events lampState [] = []"
| "entries_events lampState (tick # ticks) =
     entry_events lampState tick @ entries_events (\<not> lampState) ticks"


section \<open>The tick arithmetic\<close>

lemma millisecs_of_nat: "millisecs_of v = of_nat (unat v * 100)"
  by (simp add: millisecs_of_def)

lemma tick_bound: "unat (v :: byte) * 100 < 25600"
  using unsigned_less [of v] by simp

lemma unat_millisecs_of: "unat (millisecs_of v) = unat v * 100"
  using tick_bound [of v] by (simp add: millisecs_of_nat unat_of_nat del: of_nat_mult)

lemma millisecs_of_eq_0: "millisecs_of v = 0 \<longleftrightarrow> v = 0"
  using unat_millisecs_of [of v] by (auto simp: unat_eq_0 millisecs_of_def)

lemma sint_millisecs_of: "sint (millisecs_of v) = int (unat v * 100)"
proof -
  have "sint (millisecs_of v) = signed_take_bit 15 (int (unat v * 100))"
    unfolding millisecs_of_nat by (simp only: signed_of_nat) simp
  also have "\<dots> = int (unat v * 100)"
  proof (rule signed_take_bit_int_eq_self)
    show "- (2 ^ 15) \<le> int (unat v * 100)"
      by (rule order_trans [of _ 0]) simp_all
    have "int (unat v * 100) < int 25600"
      using tick_bound [of v] by (simp only: of_nat_less_iff)
    then show "int (unat v * 100) < 2 ^ 15" by simp
  qed
  finally show ?thesis .
qed

lemma delay_millisecs_of: "(scast (millisecs_of v) :: 32 word) = of_nat (unat v * 100)"
  by (simp only: scast_eq sint_millisecs_of word_of_int_nat) simp

lemma unat_delay_millisecs_of: "unat (scast (millisecs_of v) :: 32 word) = unat v * 100"
  using tick_bound [of v] by (simp add: delay_millisecs_of unat_of_nat del: of_nat_mult)

section \<open>The loop computes the recursion over the entries\<close>

lemma byte_succ_below:
  fixes i n :: byte
  assumes "i < n"
  shows "unat (i + 1) = Suc (unat i)"
proof -
  have "unat i < unat n" using assms by (simp add: word_less_nat_alt)
  moreover have "unat n < 256" using unsigned_less [of n] by simp
  ultimately have "unat i + unat (1 :: byte) < 2 ^ LENGTH(8)" by simp
  then have "unat (i + 1) = unat i + unat (1 :: byte)"
    by (simp only: unat_add_lem [THEN iffD1])
  then show ?thesis by simp
qed

lemma blinkLamp_loop_entries:
  assumes "unat pattern_length \<le> length pattern"
  shows "blinkLamp_loop pattern pattern_length i lampState =
    Some (entries_events lampState (drop (unat i) (take (unat pattern_length) pattern)))"
  using assms
proof (induction pattern pattern_length i lampState rule: blinkLamp_loop.induct)
  case (1 pattern pattern_length i lampState)
  show ?case
  proof (cases "i < pattern_length")
    case True
    then have below: "unat i < unat pattern_length"
      by (simp add: word_less_nat_alt)
    with "1.prems" have inside: "unat i < length pattern" by simp
    have succ: "unat (i + 1) = Suc (unat i)"
      using True by (rule byte_succ_below)
    have split: "drop (unat i) (take (unat pattern_length) pattern) =
        pattern ! unat i # drop (Suc (unat i)) (take (unat pattern_length) pattern)"
      using below inside by (simp add: Cons_nth_drop_Suc [symmetric])
    show ?thesis
    proof (cases "millisecs_of (pattern ! unat i) = 0")
      case zero: True
      from "1.IH"(1) [OF True inside zero "1.prems"] True inside zero
      show ?thesis
        by (subst blinkLamp_loop.simps) (simp add: split succ entry_events_def)
    next
      case nonzero: False
      from "1.IH"(2) [OF True inside nonzero "1.prems"] True inside nonzero
      show ?thesis
        by (subst blinkLamp_loop.simps) (simp add: split succ entry_events_def)
    qed
  next
    case False
    then have "unat pattern_length \<le> unat i"
      by (simp add: word_less_nat_alt)
    with False show ?thesis
      by (subst blinkLamp_loop.simps) simp
  qed
qed

lemma blinkLamp_entries:
  assumes "unat pattern_length \<le> length pattern"
  shows "blinkLamp pattern pattern_length =
    Some (entries_events False (take (unat pattern_length) pattern))"
  using blinkLamp_loop_entries [OF assms, of 0 False] by (simp add: blinkLamp_def)

lemma blinkLamp_sizeof:
  assumes "length pattern < 256"
  shows "blinkLamp pattern (sizeof pattern) = Some (entries_events False pattern)"
proof -
  have "unat (sizeof pattern) = length pattern"
    using assms by (simp add: sizeof_def unat_of_nat)
  then show ?thesis
    using blinkLamp_entries [of "sizeof pattern" pattern] by simp
qed

section \<open>Observations of a played list\<close>

lemma entries_events_append:
  "entries_events lampState (xs @ ys) =
     entries_events lampState xs @ entries_events (lampState = even (length xs)) ys"
proof (induction xs arbitrary: lampState)
  case Nil
  show ?case by simp
next
  case (Cons x xs)
  have "entries_events ((\<not> lampState) = even (length xs)) ys =
      entries_events (lampState = even (length (x # xs))) ys"
    by (rule arg_cong [where f = "\<lambda>b. entries_events b ys"]) auto
  then show ?case by (simp add: Cons.IH)
qed

lemma entry_events_fold [simp]: "entry_events lampState 0 = []"
  by (simp add: entry_events_def millisecs_of_eq_0)

lemma entry_events_tick:
  "tick \<noteq> 0 \<Longrightarrow> entry_events lampState tick =
     [DigitalWrite Lamp (\<not> lampState), DigitalWrite LED (\<not> lampState),
      Delay (of_nat (unat tick * 100))]"
  by (simp add: entry_events_def millisecs_of_eq_0 delay_millisecs_of del: of_nat_mult)

lemma unat_delay_tick: "unat (of_nat (unat (tick :: byte) * 100) :: 32 word) = unat tick * 100"
  using tick_bound [of tick] by (simp add: unat_of_nat del: of_nat_mult)

lemma lampWrites_no_fold:
  "0 \<notin> set ticks \<Longrightarrow>
     lampWrites (entries_events lampState ticks) = map (\<lambda>k. even k \<noteq> lampState) [0..<length ticks]"
proof (induction ticks arbitrary: lampState)
  case Nil
  show ?case by simp
next
  case (Cons tick ticks)
  then have "tick \<noteq> 0" and rest: "0 \<notin> set ticks" by auto
  have "map (\<lambda>k. even k \<noteq> lampState) [0..<length (tick # ticks)] =
      (\<not> lampState) # map (\<lambda>k. even (Suc k) \<noteq> lampState) [0..<length ticks]"
    by (simp add: upt_conv_Cons map_Suc_upt [symmetric] del: upt_Suc)
  also have "map (\<lambda>k. even (Suc k) \<noteq> lampState) [0..<length ticks] =
      map (\<lambda>k. even k \<noteq> (\<not> lampState)) [0..<length ticks]"
    by (rule map_cong) auto
  finally show ?case
    using \<open>tick \<noteq> 0\<close> Cons.IH [OF rest, of "\<not> lampState"]
    by (simp add: entry_events_tick Lamp_def LED_def del: of_nat_mult)
qed

lemma delays_no_fold:
  "0 \<notin> set ticks \<Longrightarrow>
     delays (entries_events lampState ticks) = map (\<lambda>tick. unat tick * 100) ticks"
proof (induction ticks arbitrary: lampState)
  case Nil
  show ?case by simp
next
  case (Cons tick ticks)
  then have "tick \<noteq> 0" and rest: "0 \<notin> set ticks" by auto
  then show ?case
    using Cons.IH [OF rest, of "\<not> lampState"]
    by (simp add: entry_events_tick unat_delay_tick del: of_nat_mult)
qed

lemma transitions_no_fold:
  "0 \<notin> set ticks \<Longrightarrow> transitions lampState (entries_events lampState ticks) = length ticks"
proof (induction ticks arbitrary: lampState)
  case Nil
  show ?case by simp
next
  case (Cons tick ticks)
  then have "tick \<noteq> 0" and rest: "0 \<notin> set ticks" by auto
  then show ?case
    using Cons.IH [OF rest, of "\<not> lampState"]
    by (simp add: entry_events_tick Lamp_def LED_def del: of_nat_mult)
qed

lemma lampAfter_no_fold:
  "0 \<notin> set ticks \<Longrightarrow>
     lampAfter level (entries_events lampState ticks) =
       (if ticks = [] then level else (lampState = even (length ticks)))"
proof (induction ticks arbitrary: lampState level)
  case Nil
  show ?case by simp
next
  case (Cons tick ticks)
  then have "tick \<noteq> 0" and rest: "0 \<notin> set ticks" by auto
  then show ?case
    using Cons.IH [OF rest, of "\<not> lampState" "\<not> lampState"]
    by (auto simp: entry_events_tick Lamp_def LED_def simp del: of_nat_mult)
qed

lemma sum_list_scaled: "sum_list (map (\<lambda>tick. unat tick * 100) ticks) = sum_list (map unat ticks) * (100 :: nat)"
  by (induction ticks) (simp_all add: algebra_simps)

lemma entries_no_fold:
  "0 \<notin> set ticks \<Longrightarrow>
     entries_events lampState ticks =
       concat (map (\<lambda>k. [DigitalWrite Lamp (even k \<noteq> lampState),
                         DigitalWrite LED (even k \<noteq> lampState),
                         Delay (of_nat (unat (ticks ! k) * 100))]) [0..<length ticks])"
proof (induction ticks arbitrary: lampState)
  case Nil
  show ?case by simp
next
  case (Cons tick ticks)
  then have "tick \<noteq> 0" and rest: "0 \<notin> set ticks" by auto
  have "map (\<lambda>k. [DigitalWrite Lamp (even k \<noteq> lampState), DigitalWrite LED (even k \<noteq> lampState),
                  Delay (of_nat (unat ((tick # ticks) ! k) * 100))]) [0..<length (tick # ticks)] =
      [DigitalWrite Lamp (\<not> lampState), DigitalWrite LED (\<not> lampState),
       Delay (of_nat (unat tick * 100))] #
      map (\<lambda>k. [DigitalWrite Lamp (even (Suc k) \<noteq> lampState), DigitalWrite LED (even (Suc k) \<noteq> lampState),
                Delay (of_nat (unat (ticks ! k) * 100))]) [0..<length ticks]"
    by (simp add: upt_conv_Cons map_Suc_upt [symmetric] del: upt_Suc of_nat_mult)
  also have "map (\<lambda>k. [DigitalWrite Lamp (even (Suc k) \<noteq> lampState), DigitalWrite LED (even (Suc k) \<noteq> lampState),
                Delay (of_nat (unat (ticks ! k) * 100))]) [0..<length ticks] =
      map (\<lambda>k. [DigitalWrite Lamp (even k \<noteq> (\<not> lampState)), DigitalWrite LED (even k \<noteq> (\<not> lampState)),
                Delay (of_nat (unat (ticks ! k) * 100))]) [0..<length ticks]"
    by (rule map_cong) auto
  finally show ?case
    using \<open>tick \<noteq> 0\<close> Cons.IH [OF rest, of "\<not> lampState"]
    by (simp add: entry_events_tick del: of_nat_mult)
qed

section \<open>The player: claims\<close>

text \<open>
  C9. For every tick entry \<open>v\<close> of the 8-bit range the delay computed for it is exactly
  \<open>v * 100\<close> milliseconds, at most 25500: the product lies within the signed 16-bit range,
  so the 16-bit multiplication returns it unchanged, the zero test on it finds exactly
  the zero entries, and \<open>delay\<close> receives the same number.
\<close>

theorem millisecs_exact:
  "sint (millisecs_of tick) = int (unat tick) * 100
   \<and> - (2 ^ 15) \<le> int (unat tick) * 100 \<and> int (unat tick) * 100 < 2 ^ 15
   \<and> sint (millisecs_of tick) \<le> 25500
   \<and> unat (scast (millisecs_of tick) :: 32 word) = unat tick * 100
   \<and> (millisecs_of tick = 0 \<longleftrightarrow> tick = 0)"
proof -
  have "unat tick * 100 \<le> 25500"
    using tick_bound [of tick] by arith
  then have "int (unat tick * 100) \<le> int 25500"
    by (simp only: of_nat_le_iff)
  then have bound: "int (unat tick) * 100 \<le> 25500" by simp
  have exact: "sint (millisecs_of tick) = int (unat tick) * 100"
    by (simp add: sint_millisecs_of)
  have lower: "- (2 ^ 15) \<le> int (unat tick) * 100"
    by (rule order_trans [of _ 0]) simp_all
  have upper: "int (unat tick) * 100 < 2 ^ 15"
    using bound by simp
  from exact lower upper bound show ?thesis
    by (simp only: unat_delay_millisecs_of millisecs_of_eq_0)
qed

text \<open>
  C2. Playing \<open>[5, 0, 5, 20]\<close>: the lamp is written on and held 500 ms, the zero entry
  writes nothing and takes no time, the lamp is written on again and held 500 ms, then
  written off and held 2000 ms. Whatever its level before the pass, an observer sees one
  on-segment of 1000 ms followed by one off-segment of 2000 ms, and no write of off comes
  between the two writes of on.
\<close>

theorem fold_marker_joins:
  "blinkLamp [5, 0, 5, 20] 4 =
     Some [DigitalWrite Lamp True, DigitalWrite LED True, Delay 500,
           DigitalWrite Lamp True, DigitalWrite LED True, Delay 500,
           DigitalWrite Lamp False, DigitalWrite LED False, Delay 2000]
   \<and> map_option (segments level) (blinkLamp [5, 0, 5, 20] 4) = Some [(True, 1000), (False, 2000)]
   \<and> map_option lampWrites (blinkLamp [5, 0, 5, 20] 4) = Some [True, True, False]"
  by (simp add: blinkLamp_entries entry_events_def millisecs_of_def segments_def Lamp_def LED_def)

text \<open>
  C3. A definition of \<open>N\<close> entries, none of them zero, summing to \<open>S\<close> ticks, handed to
  the player with its length (\<open>N\<close> is the byte \<open>pattern_length\<close>): the pass returns; it has
  written the lamp \<open>N\<close> times, alternately on and off beginning with on, so that counted
  from the player's initial state off each write is a change of state; it has requested one
  delay per entry, in the order of the entries, each of 100 ms per tick; the delays sum to
  \<open>S * 100\<close> ms.
\<close>

theorem fold_free_pass:
  assumes "length pattern = unat pattern_length" and "0 \<notin> set pattern"
  shows "\<exists>tr. blinkLamp pattern pattern_length = Some tr
    \<and> length (lampWrites tr) = length pattern
    \<and> lampWrites tr = map even [0..<length pattern]
    \<and> transitions False tr = length pattern
    \<and> delays tr = map (\<lambda>tick. unat tick * 100) pattern
    \<and> totalDelay tr = sum_list (map unat pattern) * 100"
proof -
  have run: "blinkLamp pattern pattern_length = Some (entries_events False pattern)"
    using assms(1) blinkLamp_entries [of pattern_length pattern] by simp
  have writes: "lampWrites (entries_events False pattern) = map even [0..<length pattern]"
    using lampWrites_no_fold [OF assms(2), of False] by simp
  then have count: "length (lampWrites (entries_events False pattern)) = length pattern"
    by simp
  have changes: "transitions False (entries_events False pattern) = length pattern"
    using assms(2) by (rule transitions_no_fold)
  have each: "delays (entries_events False pattern) = map (\<lambda>tick. unat tick * 100) pattern"
    using assms(2) by (rule delays_no_fold)
  then have total: "totalDelay (entries_events False pattern) = sum_list (map unat pattern) * 100"
    by (simp only: totalDelay_def sum_list_scaled)
  from run writes count changes each total show ?thesis
    by blast
qed

theorem fold_free_pass_witness:
  "length [8, 32 :: byte] = unat (2 :: byte) \<and> 0 \<notin> set [8, 32 :: byte]
   \<and> (\<exists>tr. blinkLamp [8, 32] 2 = Some tr
        \<and> length (lampWrites tr) = 2
        \<and> lampWrites tr = [True, False]
        \<and> transitions False tr = 2
        \<and> delays tr = [800, 3200]
        \<and> totalDelay tr = 4000)"
proof -
  have len: "length [8, 32 :: byte] = unat (2 :: byte)" by simp
  have nz: "0 \<notin> set [8, 32 :: byte]" by simp
  have upt2: "[0..<2] = [0, Suc 0]" by (simp add: upt_rec)
  show ?thesis
    using fold_free_pass [OF len nz] len nz by (auto simp: upt2)
qed

text \<open>
  C4, as the code has it. Every zero entry inverts \<open>lampState\<close> once and writes nothing,
  so the inversions of two neighbouring zero entries cancel: in
  \<open>[..., N, 0, 0, M, ...]\<close> with \<open>N\<close> and \<open>M\<close> non-zero the entry \<open>M\<close> is written with the
  level opposite to the one written for \<open>N\<close>, and the pass is the pass of the sequence
  without the two zeros. The level written for \<open>N\<close> is on exactly when an even number of
  entries precede it.
\<close>

theorem double_fold_cancels:
  assumes "N \<noteq> 0" and "M \<noteq> 0" and "length (xs @ [N, 0, 0, M] @ ys) < 256"
  shows "\<exists>before after.
      blinkLamp xs (sizeof xs) = Some before
    \<and> blinkLamp (xs @ [N, 0, 0, M] @ ys) (sizeof (xs @ [N, 0, 0, M] @ ys)) =
        Some (before @
              [DigitalWrite Lamp (even (length xs)), DigitalWrite LED (even (length xs)),
               Delay (of_nat (unat N * 100)),
               DigitalWrite Lamp (odd (length xs)), DigitalWrite LED (odd (length xs)),
               Delay (of_nat (unat M * 100))] @ after)
    \<and> blinkLamp (xs @ [N, 0, 0, M] @ ys) (sizeof (xs @ [N, 0, 0, M] @ ys)) =
        blinkLamp (xs @ [N, M] @ ys) (sizeof (xs @ [N, M] @ ys))"
proof -
  have short: "length xs < 256" "length (xs @ [N, M] @ ys) < 256"
    using assms(3) by simp_all
  have before: "blinkLamp xs (sizeof xs) = Some (entries_events False xs)"
    using short(1) by (rule blinkLamp_sizeof)
  have state: "(False = even (length xs)) = odd (length xs)" by simp
  have with_zeros: "entries_events False (xs @ [N, 0, 0, M] @ ys) =
      entries_events False xs @
      [DigitalWrite Lamp (even (length xs)), DigitalWrite LED (even (length xs)),
       Delay (of_nat (unat N * 100)),
       DigitalWrite Lamp (odd (length xs)), DigitalWrite LED (odd (length xs)),
       Delay (of_nat (unat M * 100))] @ entries_events (odd (length xs)) ys"
    using assms(1,2)
    by (simp add: entries_events_append [of False xs] state entry_events_tick del: of_nat_mult)
  have without: "entries_events False (xs @ [N, M] @ ys) =
      entries_events False (xs @ [N, 0, 0, M] @ ys)"
    using assms(1,2)
    by (simp add: entries_events_append [of False xs] state entry_events_tick del: of_nat_mult)
  from before with_zeros without show ?thesis
    by (simp only: blinkLamp_sizeof [OF assms(3)] blinkLamp_sizeof [OF short(2)]) blast
qed

theorem double_fold_cancels_witness:
  "(5 :: byte) \<noteq> 0 \<and> (7 :: byte) \<noteq> 0 \<and> length ([3] @ [5, 0, 0, 7 :: byte] @ [9]) < 256
   \<and> blinkLamp [3] 1 = Some [DigitalWrite Lamp True, DigitalWrite LED True, Delay 300]
   \<and> blinkLamp [3, 5, 0, 0, 7, 9] 6 =
        Some [DigitalWrite Lamp True, DigitalWrite LED True, Delay 300,
              DigitalWrite Lamp False, DigitalWrite LED False, Delay 500,
              DigitalWrite Lamp True, DigitalWrite LED True, Delay 700,
              DigitalWrite Lamp False, DigitalWrite LED False, Delay 900]
   \<and> blinkLamp [3, 5, 0, 0, 7, 9] 6 = blinkLamp [3, 5, 7, 9] 4"
proof -
  have a: "(5 :: byte) \<noteq> 0" and b: "(7 :: byte) \<noteq> 0"
    and c: "length ([3] @ [5, 0, 0, 7 :: byte] @ [9]) < 256"
    by simp_all
  have run: "blinkLamp [3, 5, 0, 0, 7, 9] 6 =
        Some [DigitalWrite Lamp True, DigitalWrite LED True, Delay 300,
              DigitalWrite Lamp False, DigitalWrite LED False, Delay 500,
              DigitalWrite Lamp True, DigitalWrite LED True, Delay 700,
              DigitalWrite Lamp False, DigitalWrite LED False, Delay 900]"
    by (simp add: blinkLamp_entries entry_events_def millisecs_of_def)
  show ?thesis
    using double_fold_cancels [OF a b c] a b c run
    by (simp add: sizeof_def blinkLamp_entries entry_events_def millisecs_of_def)
qed

text \<open>
  The claim C4 as the specification words it fails on \<open>[5, 0, 0, 5]\<close>: the first 5 is
  played with the lamp on, the second with the lamp off.
\<close>

theorem double_fold_counterexample:
  "blinkLamp [5, 0, 0, 5] 4 =
     Some [DigitalWrite Lamp True, DigitalWrite LED True, Delay 500,
           DigitalWrite Lamp False, DigitalWrite LED False, Delay 500]
   \<and> map_option lampWrites (blinkLamp [5, 0, 0, 5] 4) = Some [True, False]"
  by (simp add: blinkLamp_entries entry_events_def millisecs_of_def Lamp_def LED_def)

text \<open>
  C5, as the code has it. With \<open>pattern_length = 0\<close> the loop of the player is not
  entered: the pass returns at once, having written nothing to the lamp and requested
  no delay.
\<close>

theorem empty_definition_plays_nothing:
  "blinkLamp pattern 0 = Some []
   \<and> map_option lampWrites (blinkLamp pattern 0) = Some []
   \<and> map_option delays (blinkLamp pattern 0) = Some []"
  by (simp add: blinkLamp_entries)

text \<open>
  The claim C5 as the specification words it fails: the pass of the empty definition is
  not the pass of the fallback rhythm \<open>CodeFF\<close>, which writes the lamp 22 times.
\<close>

theorem empty_definition_counterexample:
  "blinkLamp [] 0 = Some []
   \<and> blinkLamp [] 0 \<noteq> blinkLamp CodeFF (sizeof CodeFF)
   \<and> map_option (length \<circ> lampWrites) (blinkLamp CodeFF (sizeof CodeFF)) = Some 22"
  by (simp add: blinkLamp_entries sizeof_def CodeFF_def entry_events_def millisecs_of_def Lamp_def LED_def)

text \<open>
  C10. A definition without zero entries, handed to the player with its length: the pass
  consists, entry by entry, of the write of the lamp (mirrored on the LED) and the delay
  of the entry, and the level written for the entry at index \<open>i\<close> is on exactly when \<open>i\<close>
  is even. If the length is even the lamp is off when the pass ends: from any level if
  the definition has an entry, and from the player's initial state off if it has none
  (nothing is written then).
\<close>

theorem fold_free_alternates:
  assumes "length pattern = unat pattern_length" and "0 \<notin> set pattern"
  shows "\<exists>tr. blinkLamp pattern pattern_length = Some tr
    \<and> tr = concat (map (\<lambda>i. [DigitalWrite Lamp (even i), DigitalWrite LED (even i),
                              Delay (of_nat (unat (pattern ! i) * 100))]) [0..<length pattern])
    \<and> lampWrites tr = map even [0..<length pattern]
    \<and> (even (length pattern) \<longrightarrow> lampAfter False tr = False)
    \<and> (even (length pattern) \<and> pattern \<noteq> [] \<longrightarrow> lampAfter level tr = False)"
proof -
  have run: "blinkLamp pattern pattern_length = Some (entries_events False pattern)"
    using assms(1) blinkLamp_entries [of pattern_length pattern] by simp
  have trace: "entries_events False pattern =
      concat (map (\<lambda>i. [DigitalWrite Lamp (even i), DigitalWrite LED (even i),
                        Delay (of_nat (unat (pattern ! i) * 100))]) [0..<length pattern])"
    using entries_no_fold [OF assms(2), of False] by simp
  have writes: "lampWrites (entries_events False pattern) = map even [0..<length pattern]"
    using lampWrites_no_fold [OF assms(2), of False] by simp
  have "even (length pattern) \<longrightarrow> lampAfter False (entries_events False pattern) = False"
    by (simp add: lampAfter_no_fold [OF assms(2)])
  moreover
  have "even (length pattern) \<and> pattern \<noteq> [] \<longrightarrow>
      lampAfter level (entries_events False pattern) = False"
    by (simp add: lampAfter_no_fold [OF assms(2)])
  ultimately show ?thesis
    using run trace writes by metis
qed

theorem fold_free_alternates_witness:
  "length [5, 10, 5, 30 :: byte] = unat (4 :: byte) \<and> 0 \<notin> set [5, 10, 5, 30 :: byte]
   \<and> even (length [5, 10, 5, 30 :: byte]) \<and> [5, 10, 5, 30 :: byte] \<noteq> []
   \<and> (\<exists>tr. blinkLamp [5, 10, 5, 30] 4 = Some tr
        \<and> lampWrites tr = [True, False, True, False]
        \<and> lampAfter False tr = False \<and> lampAfter True tr = False)"
proof -
  have len: "length [5, 10, 5, 30 :: byte] = unat (4 :: byte)" by simp
  have nz: "0 \<notin> set [5, 10, 5, 30 :: byte]" by simp
  have upt4: "[0..<4] = [0, 1, 2, 3]" by (simp add: upt_rec)
  show ?thesis
    using fold_free_alternates [OF len nz, of True] len nz by (auto simp: upt4)
qed

section \<open>The case labels of the switch\<close>

lemma byte_exhaust: "(c :: byte) \<in> set (map of_nat [0..<256])"
proof -
  have "unat c < 256" using unsigned_less [of c] by simp
  then have "unat c \<in> set [0..<256]" by simp
  then have "of_nat (unat c) \<in> (of_nat :: nat \<Rightarrow> byte) ` set [0..<256]" by (rule imageI)
  then show ?thesis by simp
qed

text \<open>
  The labels stand in the source in increasing order: they are the codes from 1 to 255
  with seventeen of them left out.
\<close>

lemma case_labels:
  "map fst rhythm_cases = filter (\<lambda>c. c \<notin> insert 0 {39, 108, 109, 140, 156, 172, 188, 204, 207, 220, 223, 230, 236, 239, 246, 252, 255}) (map of_nat [0..<256])"
  by code_simp

lemma distinct_bytes: "distinct (map of_nat [0..<256] :: byte list)"
proof -
  have "inj_on (of_nat :: nat \<Rightarrow> byte) (set [0..<256])"
  proof (rule inj_onI)
    fix m n :: nat
    assume "m \<in> set [0..<256]" and "n \<in> set [0..<256]"
      and same: "(of_nat m :: byte) = of_nat n"
    then have "m < 256" and "n < 256" by simp_all
    then have "unat (of_nat m :: byte) = m" and "unat (of_nat n :: byte) = n"
      by (simp_all add: unat_of_nat)
    with same show "m = n" by metis
  qed
  then show ?thesis
    unfolding distinct_map using distinct_upt by (intro conjI)
qed

lemma distinct_case_labels: "distinct (map fst rhythm_cases)"
  unfolding case_labels using distinct_bytes by (rule distinct_filter)

lemma assigned_iff:
  "c \<in> fst ` set rhythm_cases \<longleftrightarrow> c \<notin> insert 0 {39, 108, 109, 140, 156, 172, 188, 204, 207, 220, 223, 230, 236, 239, 246, 252, 255}"
proof -
  have "fst ` set rhythm_cases = set (map fst rhythm_cases)" by simp
  also have "\<dots> = {c \<in> set (map of_nat [0..<256]). c \<notin> insert 0 {39, 108, 109, 140, 156, 172, 188, 204, 207, 220, 223, 230, 236, 239, 246, 252, 255}}"
    by (simp only: case_labels set_filter)
  finally show ?thesis using byte_exhaust [of c] by blast
qed

lemma select_0: "select 0 = SteadyOn"
  by (simp add: select_def)

lemma select_assigned:
  assumes "setting \<noteq> 0" and "(setting, pattern) \<in> set rhythm_cases"
  shows "select setting = Rhythm pattern"
proof -
  have "map_of rhythm_cases setting = Some pattern"
    using distinct_case_labels assms(2) by (rule map_of_is_SomeI)
  with assms(1) show ?thesis by (simp add: select_def)
qed

lemma select_unassigned:
  assumes "setting \<noteq> 0" and "setting \<notin> fst ` set rhythm_cases"
  shows "select setting = Fallback CodeFF"
proof -
  have "map_of rhythm_cases setting = None"
    using assms(2) by (simp add: map_of_eq_None_iff)
  with assms(1) show ?thesis by (simp add: select_def)
qed

lemma select_cases:
  "(setting = 0 \<and> select setting = SteadyOn)
   \<or> (setting \<noteq> 0 \<and> (\<exists>pattern. (setting, pattern) \<in> set rhythm_cases \<and> select setting = Rhythm pattern))
   \<or> (setting \<noteq> 0 \<and> setting \<notin> fst ` set rhythm_cases \<and> select setting = Fallback CodeFF)"
proof (cases "setting = 0")
  case True
  then show ?thesis by (simp add: select_0)
next
  case False
  show ?thesis
  proof (cases "setting \<in> fst ` set rhythm_cases")
    case True
    then obtain pattern where "(setting, pattern) \<in> set rhythm_cases" by force
    with False select_assigned show ?thesis by blast
  next
    case unassigned: False
    with False select_unassigned show ?thesis by blast
  qed
qed

lemma short_patterns:
  "list_all (\<lambda>(code, pattern). 0 < length pattern \<and> length pattern \<le> 18) rhythm_cases"
  by code_simp

lemma CodeFF_length: "length CodeFF = 22"
  by (simp add: CodeFF_def)

lemma CodeFF_apart: "\<forall>(code, pattern) \<in> set rhythm_cases. pattern \<noteq> CodeFF"
  using short_patterns CodeFF_length by (fastforce simp: list_all_iff)

text \<open>
  Every array the switch can pass has between 1 and 22 entries, so \<open>sizeof\<close> fits the
  byte parameter and the player never reads beyond the array: a run of \<open>loop\<close> always
  returns.
\<close>

lemma loop_returns: "\<exists>tr. loop digitalRead = Some tr"
proof -
  have fallback: "blinkLamp CodeFF (sizeof CodeFF) = Some (entries_events False CodeFF)"
    by (rule blinkLamp_sizeof) (simp add: CodeFF_length)
  have assigned: "blinkLamp pattern (sizeof pattern) = Some (entries_events False pattern)"
    if "(setting, pattern) \<in> set rhythm_cases" for setting pattern
  proof (rule blinkLamp_sizeof)
    from that short_patterns have "length pattern \<le> 18"
      by (fastforce simp: list_all_iff)
    then show "length pattern < 256" by simp
  qed
  from select_cases [of "readSwitches digitalRead"] show ?thesis
    by (auto simp: loop_def fallback assigned)
qed

section \<open>The selection: claims\<close>

text \<open>
  C1. The switch sends every value of the byte \<open>setting\<close> to exactly one body: code 0 to
  the steady light; a code that is a case label to the player with the array named in that
  case (no label occurs twice, so the array is determined by the code); any other code to
  the player with \<open>CodeFF\<close>. The outcome is a function of the code, and so is what one run
  of \<open>loop\<close> does: two runs that read the same code from the switches do the same.
\<close>

theorem select_total:
  "((setting = 0 \<and> select setting = SteadyOn)
    \<or> (setting \<noteq> 0 \<and> (\<exists>pattern. (setting, pattern) \<in> set rhythm_cases \<and> select setting = Rhythm pattern))
    \<or> (setting \<noteq> 0 \<and> setting \<notin> fst ` set rhythm_cases \<and> select setting = Fallback CodeFF))
   \<and> distinct (map fst rhythm_cases)
   \<and> 0 \<notin> fst ` set rhythm_cases
   \<and> (readSwitches digitalRead = readSwitches digitalRead' \<longrightarrow> loop digitalRead = loop digitalRead')"
proof -
  have "0 \<notin> fst ` set rhythm_cases"
    by (simp only: assigned_iff) simp
  moreover
  have "readSwitches digitalRead = readSwitches digitalRead' \<longrightarrow> loop digitalRead = loop digitalRead'"
    by (simp add: loop_def)
  ultimately show ?thesis
    using select_cases [of setting] distinct_case_labels by blast
qed

theorem select_total_witness:
  "(1 :: byte) \<noteq> 0 \<and> (1, [8, 32]) \<in> set rhythm_cases \<and> select 1 = Rhythm [8, 32]
   \<and> (39 :: byte) \<noteq> 0 \<and> 39 \<notin> fst ` set rhythm_cases \<and> select 39 = Fallback CodeFF
   \<and> readSwitches (\<lambda>pin. pin = Sw_A0) = readSwitches (\<lambda>pin. pin = 3)
   \<and> loop (\<lambda>pin. pin = Sw_A0) = loop (\<lambda>pin. pin = 3)"
proof -
  have one: "(1, [8, 32]) \<in> set rhythm_cases"
    by (simp add: rhythm_cases_def Code01_def)
  have "map_of rhythm_cases 1 = Some [8, 32]"
    using distinct_case_labels one by (rule map_of_is_SomeI)
  then have not_fallback: "select 1 \<noteq> Fallback CodeFF" and not_steady: "select 1 \<noteq> SteadyOn"
    by (simp_all add: select_def)
  have none: "39 \<notin> fst ` set rhythm_cases"
    by (simp only: assigned_iff) simp
  have same: "readSwitches (\<lambda>pin. pin = Sw_A0) = readSwitches (\<lambda>pin. pin = 3)"
    by (simp add: Sw_A0_def)
  from select_total [of 1 "\<lambda>pin. pin = Sw_A0" "\<lambda>pin. pin = 3"] not_fallback not_steady same
  have "\<exists>pattern. (1, pattern) \<in> set rhythm_cases \<and> select 1 = Rhythm pattern"
    and runs: "loop (\<lambda>pin. pin = Sw_A0) = loop (\<lambda>pin. pin = 3)"
    by auto
  then obtain pattern where "(1, pattern) \<in> set rhythm_cases" and "select 1 = Rhythm pattern"
    by blast
  with one distinct_case_labels have first: "select 1 = Rhythm [8, 32]"
    by (auto dest: eq_key_imp_eq_value)
  from select_total [of 39] none
  have second: "select 39 = Fallback CodeFF" by force
  from one first none second same runs show ?thesis by simp
qed

text \<open>
  C7. The codes that resolve to the fallback are exactly 39, 108, 109, 140, 156, 172, 188,
  204, 207, 220, 223, 230, 236, 239, 246, 252 and 255: these are the codes other than 0
  without a case label, and each of them is played with \<open>CodeFF\<close>. \<open>CodeFF\<close> has 22
  entries, an even number, each a byte whose value is the one written in the source, and
  no array of a case label equals it.
\<close>

theorem fallback_codes:
  "(select setting = Fallback CodeFF \<longleftrightarrow> setting \<in> {39, 108, 109, 140, 156, 172, 188, 204, 207, 220, 223, 230, 236, 239, 246, 252, 255})
   \<and> (setting \<noteq> 0 \<and> setting \<notin> fst ` set rhythm_cases \<longleftrightarrow> setting \<in> {39, 108, 109, 140, 156, 172, 188, 204, 207, 220, 223, 230, 236, 239, 246, 252, 255})
   \<and> even (length CodeFF)
   \<and> (\<forall>tick \<in> set CodeFF. unat tick \<le> 255)
   \<and> map unat CodeFF = [6, 3, 14, 3, 6, 3, 6, 10, 14, 3, 14, 3, 14, 10, 6, 3, 14, 3, 6, 3, 6, 70]
   \<and> (\<forall>(code, pattern) \<in> set rhythm_cases. pattern \<noteq> CodeFF)"
proof -
  have labels: "setting \<noteq> 0 \<and> setting \<notin> fst ` set rhythm_cases \<longleftrightarrow> setting \<in> {39, 108, 109, 140, 156, 172, 188, 204, 207, 220, 223, 230, 236, 239, 246, 252, 255}"
    by (auto simp: assigned_iff)
  have "select setting = Fallback CodeFF \<longleftrightarrow> setting \<noteq> 0 \<and> setting \<notin> fst ` set rhythm_cases"
    using select_cases [of setting] by force
  with labels have resolve: "select setting = Fallback CodeFF \<longleftrightarrow> setting \<in> {39, 108, 109, 140, 156, 172, 188, 204, 207, 220, 223, 230, 236, 239, 246, 252, 255}"
    by simp
  have written: "map unat CodeFF = [6, 3, 14, 3, 6, 3, 6, 10, 14, 3, 14, 3, 14, 10, 6, 3, 14, 3, 6, 3, 6, 70]"
    by (simp add: CodeFF_def)
  have in_range: "\<forall>tick \<in> set CodeFF. unat tick \<le> 255"
  proof
    fix tick :: byte
    have "unat tick < 256" using unsigned_less [of tick] by simp
    then show "unat tick \<le> 255" by simp
  qed
  have "even (length CodeFF)" by (simp add: CodeFF_length)
  with resolve labels written in_range CodeFF_apart show ?thesis
    by (simp only: simp_thms)
qed

theorem fallback_codes_witness:
  "select 39 = Fallback CodeFF \<and> (39 :: byte) \<noteq> 0 \<and> 39 \<notin> fst ` set rhythm_cases
   \<and> select 255 = Fallback CodeFF
   \<and> 6 \<in> set CodeFF \<and> unat (6 :: byte) \<le> 255
   \<and> (1, Code01) \<in> set rhythm_cases \<and> Code01 \<noteq> CodeFF"
proof -
  have tick: "6 \<in> set CodeFF" by (simp add: CodeFF_def)
  have label: "(1, Code01) \<in> set rhythm_cases" by (simp add: rhythm_cases_def)
  from fallback_codes [of 39] have "select 39 = Fallback CodeFF"
    and "(39 :: byte) \<noteq> 0 \<and> 39 \<notin> fst ` set rhythm_cases" by simp_all
  moreover from fallback_codes [of 255] have "select 255 = Fallback CodeFF" by simp
  moreover from fallback_codes [of 0] tick have "unat (6 :: byte) \<le> 255" by simp
  moreover from fallback_codes [of 0] label have "Code01 \<noteq> CodeFF" by blast
  ultimately show ?thesis using tick label by simp
qed

text \<open>
  C6. When the switches read 0 the switch takes \<open>case 0\<close>: the run of \<open>loop\<close> writes the
  lamp (and the LED) on and does nothing else. The player is not called, so no delay is
  requested and the lamp is not written off; a lamp that was on sees no change of level,
  and the lamp is on when the run ends whatever its level before.
\<close>

theorem steady_on:
  assumes "readSwitches digitalRead = 0"
  shows "select (readSwitches digitalRead) = SteadyOn
    \<and> loop digitalRead = Some [DigitalWrite Lamp True, DigitalWrite LED True]
    \<and> map_option lampWrites (loop digitalRead) = Some [True]
    \<and> map_option delays (loop digitalRead) = Some []
    \<and> map_option (transitions True) (loop digitalRead) = Some 0
    \<and> map_option (lampAfter level) (loop digitalRead) = Some True"
  using assms by (simp add: loop_def select_0 Lamp_def LED_def)

theorem steady_on_witness:
  "readSwitches (\<lambda>pin. False) = 0
   \<and> loop (\<lambda>pin. False) = Some [DigitalWrite Lamp True, DigitalWrite LED True]
   \<and> map_option delays (loop (\<lambda>pin. False)) = Some []"
proof -
  have low: "readSwitches (\<lambda>pin. False) = 0" by (simp add: readSwitches_def)
  show ?thesis using steady_on [OF low] low by simp
qed

text \<open>
  C8. When the switches read 1 the switch takes \<open>case 1\<close> and plays \<open>Code01\<close>, which is
  \<open>[8, 32]\<close>: the lamp is written on and held 800 ms, written off and held 3200 ms, and
  the run of \<open>loop\<close> ends there, after one on-segment and one off-segment and 4000 ms in all.
  The switches are read once, at the start of the run.
\<close>

theorem code_1_end_to_end:
  assumes "readSwitches digitalRead = 1"
  shows "select (readSwitches digitalRead) = Rhythm [8, 32]
    \<and> loop digitalRead =
        Some [DigitalWrite Lamp True, DigitalWrite LED True, Delay 800,
              DigitalWrite Lamp False, DigitalWrite LED False, Delay 3200]
    \<and> map_option (segments level) (loop digitalRead) = Some [(True, 800), (False, 3200)]
    \<and> map_option totalDelay (loop digitalRead) = Some 4000
    \<and> map_option (lampAfter level) (loop digitalRead) = Some False"
proof -
  have "(1, Code01) \<in> set rhythm_cases" by (simp add: rhythm_cases_def)
  then have sel: "select 1 = Rhythm [8, 32]"
    using select_assigned [of 1 Code01] by (simp add: Code01_def)
  have run: "blinkLamp [8, 32] (sizeof [8, 32]) =
        Some [DigitalWrite Lamp True, DigitalWrite LED True, Delay 800,
              DigitalWrite Lamp False, DigitalWrite LED False, Delay 3200]"
    by (simp add: blinkLamp_sizeof entry_events_def millisecs_of_def)
  show ?thesis
    using assms sel run
    by (simp add: loop_def segments_def totalDelay_def Lamp_def LED_def)
qed

theorem code_1_end_to_end_witness:
  "readSwitches (\<lambda>pin. pin = Sw_A0) = 1
   \<and> loop (\<lambda>pin. pin = Sw_A0) =
        Some [DigitalWrite Lamp True, DigitalWrite LED True, Delay 800,
              DigitalWrite Lamp False, DigitalWrite LED False, Delay 3200]
   \<and> map_option totalDelay (loop (\<lambda>pin. pin = Sw_A0)) = Some 4000"
proof -
  have one: "readSwitches (\<lambda>pin. pin = Sw_A0) = 1"
    by (simp add: readSwitches_def Sw_A0_def Sw_A1_def Sw_A2_def Sw_A3_def
        Sw_B0_def Sw_B1_def Sw_B2_def Sw_B3_def)
  show ?thesis using code_1_end_to_end [OF one] one by (auto simp: totalDelay_def)
qed


end
